theory Spec2Isabelle
  imports Complex_Main "HOL-Library.Multiset" "HOL-Library.Product_Lexorder"
begin

section \<open>Strings, as the Python built-ins treat them\<close>

text \<open>
  A Python \<open>str\<close> is modelled as a \<open>string\<close> whose characters are code points below 256.
  On that range \<open>str.isspace\<close> holds for U+0009..U+000D, U+001C..U+001F, U+0020, U+0085 and
  U+00A0, the regular expression class \<open>\d\<close> is \<open>0..9\<close>, and \<open>[A-Z]\<close> is the ASCII capitals.
\<close>

definition LF :: char where
  "LF = CHR 0x0A"

definition CR :: char where
  "CR = CHR 0x0D"

definition isspace :: "char \<Rightarrow> bool" where
  "isspace c = (of_char c \<in> {9, 10, 11, 12, 13, 28, 29, 30, 31, 32, 133, 160 :: nat})"

definition isdigit :: "char \<Rightarrow> bool" where
  "isdigit c = (48 \<le> (of_char c :: nat) \<and> (of_char c :: nat) \<le> 57)"


text \<open>\<open>s.strip()\<close>, \<open>s.rstrip(chars)\<close> and \<open>s.split()\<close>.\<close>

definition strip :: "string \<Rightarrow> string" where
  "strip s = rev (dropWhile isspace (rev (dropWhile isspace s)))"

definition rstrip :: "string \<Rightarrow> string \<Rightarrow> string" where
  "rstrip chars s = rev (dropWhile (\<lambda>c. c \<in> set chars) (rev s))"

fun split_from :: "string \<Rightarrow> string \<Rightarrow> string list" where
  "split_from cur [] = (if cur = [] then [] else [cur])"
| "split_from cur (c # cs) =
     (if isspace c then (if cur = [] then split_from [] cs else cur # split_from [] cs)
      else split_from (cur @ [c]) cs)"

definition split :: "string \<Rightarrow> string list" where
  "split s = split_from [] s"

text \<open>\<open>int(s)\<close> on a string of decimal digits, and \<open>str(n)\<close> on a natural number.\<close>

definition digit_val :: "char \<Rightarrow> nat" where
  "digit_val c = of_char c - 48"

definition int_of_digits :: "string \<Rightarrow> int" where
  "int_of_digits ds = int (foldl (\<lambda>n c. 10 * n + digit_val c) 0 ds)"

function str_nat :: "nat \<Rightarrow> string" where
  "str_nat n = (if n < 10 then [char_of (48 + n)] else str_nat (n div 10) @ [char_of (48 + n mod 10)])"
  by pat_completeness auto
termination
  by (relation "measure id") auto

declare str_nat.simps [simp del]

definition str_int :: "int \<Rightarrow> string" where
  "str_int i = (if i < 0 then CHR ''-'' # str_nat (nat (- i)) else str_nat (nat i))"

text \<open>
  A text file is the string of its characters. Reading it in text mode translates
  \<open>\r\n\<close> and a lone \<open>\r\<close> to \<open>\n\<close> (universal newlines); iterating over the file yields
  the lines, each with its terminating \<open>\n\<close> (the last line may have none).
\<close>

fun universal_newlines :: "string \<Rightarrow> string" where
  "universal_newlines [] = []"
| "universal_newlines [c] = (if c = CR then [LF] else [c])"
| "universal_newlines (c # d # cs) =
     (if c = CR then (if d = LF then LF # universal_newlines cs else LF # universal_newlines (d # cs))
      else c # universal_newlines (d # cs))"

fun lines_from :: "string \<Rightarrow> string \<Rightarrow> string list" where
  "lines_from cur [] = (if cur = [] then [] else [cur])"
| "lines_from cur (c # cs) =
     (if c = LF then (cur @ [c]) # lines_from [] cs else lines_from (cur @ [c]) cs)"

definition file_lines :: "string \<Rightarrow> string list" where
  "file_lines content = lines_from [] (universal_newlines content)"

section \<open>The environment: files, console, external commands\<close>

text \<open>
  The file system is a map from file names to contents. Everything else a function does to
  the outside world is recorded, in order, as a list of events: console output, calls of
  the external tool with the exit status they gave, sleeps and renames.
\<close>

type_synonym fs = "string \<rightharpoonup> string"

datatype error = ValueError string | FileNotFoundError string

datatype event =
    ConsoleLog string
  | ConsolePrint string
  | Print string
  | Invoke "string list" int
  | Sleep nat
  | Rename string string

text \<open>
  \<open>subprocess.run(command, check=True, ...)\<close> returns a completed process when the
  exit status is zero and raises \<open>CalledProcessError\<close> otherwise; \<open>run_foldx_command\<close>
  catches that exception and returns it as a value. Both objects carry \<open>returncode\<close>.
  The external tool is a parameter \<open>run\<close>: given a command and the state of the world it
  yields an exit status and the next state of the world.
\<close>

datatype proc_result = CompletedProcess int | CalledProcessError int

fun returncode :: "proc_result \<Rightarrow> int" where
  "returncode (CompletedProcess rc) = rc"
| "returncode (CalledProcessError rc) = rc"

definition subprocess_run_check :: "(string list \<Rightarrow> 'w \<Rightarrow> int \<times> 'w) \<Rightarrow> string list \<Rightarrow> 'w
    \<Rightarrow> (proc_result + proc_result) \<times> 'w" where
  "subprocess_run_check run command w =
     (case run command w of (rc, w') \<Rightarrow>
        if rc = 0 then (Inr (CompletedProcess rc), w') else (Inl (CalledProcessError rc), w'))"

definition run_foldx_command :: "(string list \<Rightarrow> 'w \<Rightarrow> int \<times> 'w) \<Rightarrow> string list \<Rightarrow> 'w
    \<Rightarrow> proc_result \<times> 'w" where
  "run_foldx_command run command w =
     (case subprocess_run_check run command w of
        (Inr result, w') \<Rightarrow> (result, w')
      | (Inl err, w') \<Rightarrow> (err, w'))"

section \<open>repair_pdb\<close>

definition repair_pdb :: "(string list \<Rightarrow> 'w \<Rightarrow> int \<times> 'w) \<Rightarrow> ('w \<Rightarrow> string \<Rightarrow> bool) \<Rightarrow> string \<Rightarrow> 'w
    \<Rightarrow> (error + string) \<times> event list \<times> 'w" where
  "repair_pdb run path_exists base_pdb_name w =
     (let pdb_file = base_pdb_name @ ''.pdb'';
          cmd = [''foldx'', ''--command=RepairPDB'', ''--pdb='' @ pdb_file]
      in case run_foldx_command run cmd w of (result, w') \<Rightarrow>
        (let rc = returncode result;
             repaired_file = base_pdb_name @ ''_Repair.pdb''
         in if \<not> path_exists w' repaired_file
            then (Inl (FileNotFoundError ''Repaired PDB not generated''), [Invoke cmd rc], w')
            else (Inr repaired_file,
                  [Invoke cmd rc]
                  @ (if rc \<noteq> 0 then [ConsoleLog (''[red]RepairPDB failed for '' @ pdb_file @ ''[/red]'')] else [])
                  @ (if rc = 0 then [ConsoleLog (''[green]Repaired PDB: '' @ repaired_file @ ''[/green]'')] else []),
                  w')))"

section \<open>make_mutation_list and get_mutation_names\<close>

text \<open>
  A residue specifier is the triple \<open>(chain, pos, wt)\<close> that \<open>main\<close> obtains from
  \<open>res.split(':')\<close>: three strings. The f-string \<open>{wt}{chain}{pos}{aa};\n\<close> is their
  concatenation.
\<close>

type_synonym residue = "string \<times> string \<times> string"

definition amino_acids :: "string list" where
  "amino_acids = [''A'', ''C'', ''D'', ''E'', ''F'', ''G'', ''H'', ''I'', ''K'', ''L'',
                  ''M'', ''N'', ''P'', ''Q'', ''R'', ''S'', ''T'', ''V'', ''W'', ''Y'']"

definition mutation_code :: "string \<Rightarrow> string \<Rightarrow> string \<Rightarrow> string \<Rightarrow> string" where
  "mutation_code wt chain pos aa = wt @ chain @ pos @ aa"

definition mutation_line :: "string \<Rightarrow> string \<Rightarrow> string \<Rightarrow> string \<Rightarrow> string" where
  "mutation_line wt chain pos aa = mutation_code wt chain pos aa @ [CHR '';'', LF]"

fun residue_mutations :: "residue \<Rightarrow> string list" where
  "residue_mutations (chain, pos, wt) =
     map (mutation_line wt chain pos) (filter (\<lambda>aa. aa \<noteq> wt) amino_acids)"

definition mutations :: "residue list \<Rightarrow> string list" where
  "mutations residues = concat (map residue_mutations residues)"

definition make_mutation_list :: "residue list \<Rightarrow> fs \<Rightarrow> (error + unit) \<times> event list \<times> fs" where
  "make_mutation_list residues files =
     (let muts = mutations residues;
          files' = files(''individual_list.txt'' \<mapsto> concat muts);
          num_lines = length muts
      in if num_lines mod 19 \<noteq> 0
         then (Inl (ValueError (''Number of mutations ('' @ str_nat num_lines @ '') is not correct.'')),
               [], files')
         else (Inr (), [ConsoleLog ''[green]Mutation list created: individual_list.txt[/green]''], files'))"

definition get_mutation_names :: "fs \<Rightarrow> string \<Rightarrow> error + string list" where
  "get_mutation_names files mutation_file =
     (case files mutation_file of
        None \<Rightarrow> Inl (FileNotFoundError mutation_file)
      | Some content \<Rightarrow>
          Inr (filter (\<lambda>line. line \<noteq> [])
                 (map (\<lambda>line. rstrip '';'' (strip line)) (file_lines content))))"

section \<open>file_key and rename_pdb_files\<close>

text \<open>
  \<open>re.search(r'_(\d+)\.pdb$', filename)\<close>: the pattern ends at the end of the string, or
  just before a newline that is its last character. The digits are then the whole run
  of digits before \<open>.pdb\<close>, and that run follows an underscore, so there is at most one match.
\<close>

definition file_key :: "string \<Rightarrow> int" where
  "file_key filename =
     (let s = (if filename \<noteq> [] \<and> last filename = LF then butlast filename else filename)
      in if length s \<ge> 4 \<and> drop (length s - 4) s = ''.pdb''
         then (let stem = rev (take (length s - 4) s);
                   digits = rev (takeWhile isdigit stem);
                   rest = dropWhile isdigit stem
               in if digits \<noteq> [] \<and> rest \<noteq> [] \<and> hd rest = CHR ''_''
                  then int_of_digits digits else - 1)
         else - 1)"

text \<open>
  \<open>os.path.splitext\<close> (POSIX): the extension starts at the last dot of the last path
  component, unless that component has only leading dots before it.
\<close>

fun rfind_from :: "char \<Rightarrow> string \<Rightarrow> int \<Rightarrow> int \<Rightarrow> int" where
  "rfind_from c [] i found = found"
| "rfind_from c (x # xs) i found = rfind_from c xs (i + 1) (if x = c then i else found)"

definition rfind :: "char \<Rightarrow> string \<Rightarrow> int" where
  "rfind c p = rfind_from c p 0 (- 1)"

definition splitext :: "string \<Rightarrow> string \<times> string" where
  "splitext p =
     (let sepIndex = rfind (CHR ''/'') p;
          dotIndex = rfind (CHR ''.'') p
      in if dotIndex > sepIndex \<and>
            list_ex (\<lambda>c. c \<noteq> CHR ''.'') (take (nat (dotIndex - (sepIndex + 1))) (drop (nat (sepIndex + 1)) p))
         then (take (nat dotIndex) p, drop (nat dotIndex) p)
         else (p, []))"

text \<open>
  \<open>glob.glob\<close> is a parameter: the list of paths the file system gives for a pattern, in
  the order the file system gives them. \<open>sorted(..., key=file_key)\<close> is a stable sort.
\<close>

definition rename_pdb_files :: "(string \<Rightarrow> string list) \<Rightarrow> string \<Rightarrow> string list \<Rightarrow> event list" where
  "rename_pdb_files glob repaired_pdb mutation_names =
     (let base = fst (splitext repaired_pdb);
          pdb_files = sort_key file_key (glob (base @ ''_*.pdb''))
      in if length pdb_files \<noteq> length mutation_names
         then [Print ''Warning: PDB files and mutation names are not equal!'']
         else concat (map (\<lambda>(pdb_file, mutation).
                (let new_name = base @ ''_'' @ mutation @ ''.pdb''
                 in [Print (''Renaming '' @ pdb_file @ '' -> '' @ new_name), Rename pdb_file new_name]))
              (zip pdb_files mutation_names)))"

fun renames_of :: "event list \<Rightarrow> (string \<times> string) list" where
  "renames_of [] = []"
| "renames_of (Rename src dst # evs) = (src, dst) # renames_of evs"
| "renames_of (_ # evs) = renames_of evs"

section \<open>run_foldx_stability\<close>

definition stability_cmd :: "string \<Rightarrow> string list" where
  "stability_cmd pdb_file = [''foldx'', ''--command=Stability'', ''--pdb='' @ pdb_file]"

text \<open>
  The inner loop \<open>for attempt in range(max_retries)\<close> for one file: \<open>attempt\<close> is the loop
  variable and \<open>remaining\<close> the number of iterations still to run. It yields the flag
  \<open>success\<close>, the events and the state of the world after the loop.
\<close>

fun stability_attempts :: "(string list \<Rightarrow> 'w \<Rightarrow> int \<times> 'w) \<Rightarrow> string \<Rightarrow> int \<Rightarrow> nat \<Rightarrow> nat \<Rightarrow> nat \<Rightarrow> 'w
    \<Rightarrow> bool \<times> event list \<times> 'w" where
  "stability_attempts run pdb_file max_retries retry_delay attempt 0 w = (False, [], w)"
| "stability_attempts run pdb_file max_retries retry_delay attempt (Suc remaining) w =
     (let cmd = stability_cmd pdb_file
      in case run_foldx_command run cmd w of (result, w') \<Rightarrow>
        if returncode result = 0
        then (True,
              [Invoke cmd (returncode result),
               ConsoleLog (''[green]Stability calculation completed for '' @ pdb_file @ ''[/green]'')],
              w')
        else (case stability_attempts run pdb_file max_retries retry_delay (Suc attempt) remaining w' of
                (success, evs, w'') \<Rightarrow>
                  (success,
                   [Invoke cmd (returncode result),
                    ConsolePrint (''[yellow]Error running stability calculation for '' @ pdb_file
                       @ '' (Attempt '' @ str_nat (attempt + 1) @ ''/'' @ str_int max_retries @ ''):[/yellow]'')]
                   @ (if int attempt < max_retries - 1
                      then [ConsolePrint (''Retrying in '' @ str_nat retry_delay @ '' seconds...''),
                            Sleep retry_delay]
                      else [])
                   @ evs,
                   w'')))"

text \<open>The outer loop over the matching files, collecting \<open>error_files\<close>.\<close>

fun stability_loop :: "(string list \<Rightarrow> 'w \<Rightarrow> int \<times> 'w) \<Rightarrow> int \<Rightarrow> nat \<Rightarrow> string list \<Rightarrow> 'w
    \<Rightarrow> string list \<times> event list \<times> 'w" where
  "stability_loop run max_retries retry_delay [] w = ([], [], w)"
| "stability_loop run max_retries retry_delay (pdb_file # rest) w =
     (case stability_attempts run pdb_file max_retries retry_delay 0 (nat max_retries) w of
        (success, evs, w') \<Rightarrow>
          (case stability_loop run max_retries retry_delay rest w' of
             (error_files, evs', w'') \<Rightarrow>
               ((if \<not> success then [pdb_file] else []) @ error_files,
                ConsoleLog (''Running stability calculation for: '' @ pdb_file) # evs @ evs',
                w'')))"

text \<open>
  \<open>run_foldx_stability\<close> returns \<open>None\<close>, \<open>False\<close> or \<open>True\<close>: the result is a
  \<open>bool option\<close>. \<open>time.sleep\<close> takes a non-negative delay, so \<open>retry_delay\<close> is a \<open>nat\<close>.
\<close>

definition run_foldx_stability :: "(string \<Rightarrow> string list) \<Rightarrow> (string list \<Rightarrow> 'w \<Rightarrow> int \<times> 'w) \<Rightarrow> string
    \<Rightarrow> int \<Rightarrow> nat \<Rightarrow> 'w \<Rightarrow> bool option \<times> event list \<times> 'w" where
  "run_foldx_stability glob run base_pdb_name max_retries retry_delay w =
     (let file_pattern = base_pdb_name @ ''_Repair*.pdb'';
          matching_files = glob file_pattern
      in if matching_files = []
         then (None,
               [ConsolePrint (''[red]No files found matching the pattern: '' @ file_pattern @ ''[/red]'')],
               w)
         else (case stability_loop run max_retries retry_delay matching_files w of
                 (error_files, evs, w') \<Rightarrow>
                   if error_files \<noteq> []
                   then (Some False,
                         evs @ [ConsolePrint ''[red]The following files failed stability calculation after retries:[/red]'']
                             @ map (\<lambda>f. ConsolePrint (''[red]'' @ f @ ''[/red]'')) error_files,
                         w')
                   else (Some True,
                         evs @ [ConsoleLog ''[green]All stability calculations finished successfully[/green]''],
                         w')))"

definition default_max_retries :: int where
  "default_max_retries = 3"

definition default_retry_delay :: nat where
  "default_retry_delay = 5"

text \<open>The exit statuses of the calls of the stability command on one file, in order.\<close>

fun invocations_of :: "string \<Rightarrow> event list \<Rightarrow> int list" where
  "invocations_of pdb_file [] = []"
| "invocations_of pdb_file (Invoke cmd rc # evs) =
     (if cmd = stability_cmd pdb_file then rc # invocations_of pdb_file evs
      else invocations_of pdb_file evs)"
| "invocations_of pdb_file (_ # evs) = invocations_of pdb_file evs"

fun all_invocations :: "event list \<Rightarrow> (string list \<times> int) list" where
  "all_invocations [] = []"
| "all_invocations (Invoke cmd rc # evs) = (cmd, rc) # all_invocations evs"
| "all_invocations (_ # evs) = all_invocations evs"

section \<open>subtract_fields: the deltas and their ranking\<close>

subsection \<open>Python floats\<close>

text \<open>
  A Python float is an IEEE 754 binary64 value: a finite value (a rational number
  \<open>m * 2^e\<close> with \<open>|m| < 2^53\<close> and \<open>-1074 \<le> e \<le> 971\<close>), an infinity or
  not-a-number. The two zeros are one value here: they compare equal, and no operation
  of the program tells them apart before the table is formatted.
\<close>

datatype pyfloat = Finite rat | PInf | NInf | NaN

function bit_length :: "nat \<Rightarrow> nat" where
  "bit_length n = (if n = 0 then 0 else Suc (bit_length (n div 2)))"
  by pat_completeness auto
termination
  by (relation "measure id") auto

declare bit_length.simps [simp del]

definition pow2 :: "int \<Rightarrow> rat" where
  "pow2 e = (if 0 \<le> e then 2 ^ nat e else 1 / 2 ^ nat (- e))"

text \<open>For \<open>a > 0\<close>, the exponent \<open>e\<close> with \<open>2^e \<le> a < 2^(e+1)\<close>.\<close>

definition floor_log2 :: "rat \<Rightarrow> int" where
  "floor_log2 a =
     (case quotient_of a of (p, q) \<Rightarrow>
        (let d = int (bit_length (nat p)) - int (bit_length (nat q))
         in if pow2 d \<le> a then d else d - 1))"

definition round_half_even :: "rat \<Rightarrow> int" where
  "round_half_even m =
     (let f = \<lfloor>m\<rfloor>; d = m - of_int f
      in if d < 1 / 2 then f else if 1 / 2 < d then f + 1 else if even f then f else f + 1)"

text \<open>
  Rounding of an exact result to the nearest float, ties to even: the unit in the last
  place is \<open>2^q\<close> with \<open>q = max (e - 52) (-1074)\<close>, and a result of \<open>2^1024\<close> or more in
  magnitude overflows to an infinity.
\<close>

definition round_double :: "rat \<Rightarrow> pyfloat" where
  "round_double r =
     (if r = 0 then Finite 0
      else (let a = \<bar>r\<bar>;
                q = max (floor_log2 a - 52) (- 1074);
                v = of_int (round_half_even (a / pow2 q)) * pow2 q
            in if pow2 1024 \<le> v then (if 0 < r then PInf else NInf)
               else Finite (if 0 < r then v else - v)))"

text \<open>Unary minus, subtraction, and the comparisons \<open>==\<close> and \<open><=\<close> of Python floats.\<close>

fun fneg :: "pyfloat \<Rightarrow> pyfloat" where
  "fneg (Finite r) = Finite (- r)"
| "fneg PInf = NInf"
| "fneg NInf = PInf"
| "fneg NaN = NaN"

fun fsub :: "pyfloat \<Rightarrow> pyfloat \<Rightarrow> pyfloat" where
  "fsub NaN _ = NaN"
| "fsub _ NaN = NaN"
| "fsub PInf PInf = NaN"
| "fsub NInf NInf = NaN"
| "fsub PInf _ = PInf"
| "fsub NInf _ = NInf"
| "fsub (Finite a) PInf = NInf"
| "fsub (Finite a) NInf = PInf"
| "fsub (Finite a) (Finite b) = round_double (a - b)"

fun float_eq :: "pyfloat \<Rightarrow> pyfloat \<Rightarrow> bool" where
  "float_eq NaN _ = False"
| "float_eq _ NaN = False"
| "float_eq x y = (x = y)"




subsection \<open>Rows\<close>

text \<open>
  \<open>float(s)\<close> is a parameter \<open>pyfloat\<close> that yields \<open>None\<close> where Python raises
  \<open>ValueError\<close>. A result row \<open>[individual_text, file2, result]\<close> is a record.
\<close>

record row =
  mutation :: string
  source_file :: string
  delta :: pyfloat

text \<open>One pair of lines of the reference file and of a mutant file (the body of the inner loop).\<close>

definition line_delta :: "(string \<Rightarrow> pyfloat option) \<Rightarrow> string \<Rightarrow> string \<Rightarrow> pyfloat option" where
  "line_delta pyfloat line1 line2 =
     (let fields1 = split (strip line1);
          fields2 = split (strip line2)
      in if length fields1 < 2 \<or> length fields2 < 2 then None
         else (case pyfloat (fields1 ! 1) of
                 None \<Rightarrow> None
               | Some value1 \<Rightarrow>
                   (case pyfloat (fields2 ! 1) of
                      None \<Rightarrow> None
                    | Some value2 \<Rightarrow> Some (fsub value2 value1))))"

text \<open>
  The rows one mutant file contributes: \<open>zip(f1, f2)\<close> pairs the lines of the reference
  file \<open>f1\<close> with those of the mutant file \<open>f2\<close>; a skipped pair contributes no row.
\<close>

definition file_rows :: "(string \<Rightarrow> pyfloat option) \<Rightarrow> string \<Rightarrow> string \<Rightarrow> string \<Rightarrow> string \<Rightarrow> row list" where
  "file_rows pyfloat individual_text file2 content1 content2 =
     List.map_filter
       (\<lambda>(line1, line2).
          map_option (\<lambda>result. \<lparr>mutation = individual_text, source_file = file2, delta = result\<rparr>)
            (line_delta pyfloat line1 line2))
       (zip (file_lines content1) (file_lines content2))"






section \<open>Example environments\<close>

text \<open>
  Concrete environments on which the properties below are evaluated. The state of the
  world is the number of calls of the external tool so far.
\<close>

definition tool_always_fails :: "string list \<Rightarrow> nat \<Rightarrow> int \<times> nat" where
  "tool_always_fails cmd n = (1, n + 1)"

definition tool_fails_twice :: "string list \<Rightarrow> nat \<Rightarrow> int \<times> nat" where
  "tool_fails_twice cmd n = (if n < 2 then 1 else 0, n + 1)"

definition tool_fails_four_times :: "string list \<Rightarrow> nat \<Rightarrow> int \<times> nat" where
  "tool_fails_four_times cmd n = (if n < 4 then 1 else 0, n + 1)"

definition every_path_exists :: "nat \<Rightarrow> string \<Rightarrow> bool" where
  "every_path_exists w p = True"

definition no_path_exists :: "nat \<Rightarrow> string \<Rightarrow> bool" where
  "no_path_exists w p = False"

definition glob_nothing :: "string \<Rightarrow> string list" where
  "glob_nothing pattern = []"

definition glob_foo :: "string \<Rightarrow> string list" where
  "glob_foo pattern =
     (if pattern = ''foo_Repair*.pdb'' then [''foo_Repair.pdb'', ''foo_Repair_1.pdb''] else [])"

definition glob_base :: "string \<Rightarrow> string list" where
  "glob_base pattern =
     (if pattern = ''base_Repair_*.pdb''
      then [''base_Repair_10.pdb'', ''base_Repair_2.pdb'', ''base_Repair_x.pdb'', ''base_Repair_1.pdb'']
      else [])"

text \<open>
  A stand-in for \<open>float\<close> on the literals of the examples (0.1 and 0.3 are the floats
  nearest to one tenth and three tenths), and the two stability files of the spec's
  scenario: reference lines \<open>x 10.0\<close>, \<open>y 12.0\<close> and mutant lines \<open>x 11.5\<close>, \<open>y 9.0\<close>.
\<close>

definition pyfloat_example :: "string \<Rightarrow> pyfloat option" where
  "pyfloat_example =
     map_of [(''10.0'', Finite 10), (''12.0'', Finite 12), (''11.5'', Finite (23 / 2)), (''9.0'', Finite 9),
             (''0.1'', Finite (3602879701896397 / 36028797018963968)),
             (''0.3'', Finite (5404319552844595 / 18014398509481984)),
             (''inf'', PInf), (''nan'', NaN)]"

definition reference_fxout :: string where
  "reference_fxout = ''x 10.0'' @ [LF] @ ''y 12.0'' @ [LF]"

definition mutant_fxout :: string where
  "mutant_fxout = ''x 11.5'' @ [LF] @ ''y 9.0'' @ [LF]"




section \<open>Properties\<close>

lemma amino_acids_length: "length amino_acids = 20"
  by (simp add: amino_acids_def)

subsection \<open>The mutation list\<close>

lemma amino_acids_distinct: "distinct amino_acids"
  by (simp add: amino_acids_def)

lemma length_filter_neq:
  "distinct xs \<Longrightarrow> length (filter (\<lambda>a. a \<noteq> x) xs) = (if x \<in> set xs then length xs - 1 else length xs)"
proof (induction xs)
  case Nil
  show ?case by simp
next
  case (Cons a xs)
  have "x \<in> set xs \<Longrightarrow> 0 < length xs" by (cases xs) auto
  with Cons show ?case by auto
qed

lemma residue_mutations_length:
  "length (residue_mutations (chain, pos, wt)) = (if wt \<in> set amino_acids then 19 else 20)"
  by (simp add: length_filter_neq amino_acids_distinct amino_acids_length)

lemma mutations_Nil: "mutations [] = []"
  by (simp add: mutations_def)

lemma mutations_Cons: "mutations (r # rs) = residue_mutations r @ mutations rs"
  by (simp add: mutations_def)

lemma mutations_length:
  "length (mutations residues)
     = 19 * length residues + length (filter (\<lambda>(chain, pos, wt). wt \<notin> set amino_acids) residues)"
proof (induction residues)
  case Nil
  show ?case by (simp add: mutations_Nil)
next
  case (Cons r rs)
  obtain chain pos wt where r: "r = (chain, pos, wt)" by (cases r)
  show ?case using Cons.IH
    by (simp add: mutations_Cons r residue_mutations_length del: residue_mutations.simps)
qed

lemma mutations_lines:
  "line \<in> set (mutations residues) \<Longrightarrow>
     \<exists>chain pos wt aa. (chain, pos, wt) \<in> set residues \<and> aa \<in> set amino_acids \<and> aa \<noteq> wt
        \<and> line = mutation_code wt chain pos aa @ '';'' @ [LF]"
  by (fastforce simp: mutations_def mutation_line_def)

text \<open>
  Claim C1, as amended. Every line of the generated list is the code
  \<open>{wt}{chain}{pos}{aa}\<close> of one of the given residues and of a letter \<open>aa\<close> of the
  alphabet other than that residue's wild type, followed by a semicolon and a newline.
  When the wild type of every residue is one of the 20 letters of the alphabet, the list
  has exactly 19 lines for each residue.
\<close>

theorem mutation_list_count:
  "(\<forall>line \<in> set (mutations residues).
      \<exists>chain pos wt aa. (chain, pos, wt) \<in> set residues \<and> aa \<in> set amino_acids \<and> aa \<noteq> wt
        \<and> line = mutation_code wt chain pos aa @ '';'' @ [LF])
   \<and> ((\<forall>(chain, pos, wt) \<in> set residues. wt \<in> set amino_acids)
        \<longrightarrow> length (mutations residues) = 19 * length residues)"
proof -
  have "(\<forall>(chain, pos, wt) \<in> set residues. wt \<in> set amino_acids)
      \<Longrightarrow> filter (\<lambda>(chain, pos, wt). wt \<notin> set amino_acids) residues = []"
    by (auto simp: filter_empty_conv)
  then show ?thesis
    using mutations_lines [of _ residues] by (auto simp: mutations_length)
qed

text \<open>The residue \<open>("A", "214", "E")\<close> of the spec's scenario: 19 lines, the first \<open>EA214A;\<close>.\<close>

theorem mutation_list_count_witness:
  "''E'' \<in> set amino_acids \<and> length (mutations [(''A'', ''214'', ''E'')]) = 19
   \<and> ''EA214A;'' @ [LF] \<in> set (mutations [(''A'', ''214'', ''E'')])"
proof -
  have "''EA214A;'' @ [LF] \<in> set (mutations [(''A'', ''214'', ''E'')])"
    by (simp add: mutations_def mutation_line_def mutation_code_def amino_acids_def)
  then show ?thesis
    using mutation_list_count [of "[(''A'', ''214'', ''E'')]"]
    by (simp add: amino_acids_def)
qed

text \<open>
  Claim C1 as stated fails: a wild type outside the alphabet (here \<open>X\<close>) is never equal to
  a candidate letter, so the residue contributes 20 lines.
\<close>

theorem mutation_list_count_counterexample:
  "length (mutations [(''A'', ''214'', ''X'')]) = 20
   \<and> length (mutations [(''A'', ''214'', ''X'')]) \<noteq> 19 * length [(''A'', ''214'', ''X'')]"
  by (simp add: mutations_def amino_acids_def)

text \<open>
  Claim C7: \<open>make_mutation_list\<close> raises exactly when the number of generated lines is not
  divisible by 19, and then it raises the \<open>ValueError\<close> of the divisibility check; when
  the number is divisible by 19 it returns normally.
\<close>

theorem make_mutation_list_raises_iff:
  "isl (fst (make_mutation_list residues files)) = (\<not> 19 dvd length (mutations residues))
   \<and> (fst (make_mutation_list residues files) = Inr ()) = (19 dvd length (mutations residues))
   \<and> (isl (fst (make_mutation_list residues files)) =
        (fst (make_mutation_list residues files)
           = Inl (ValueError (''Number of mutations ('' @ str_nat (length (mutations residues)) @ '') is not correct.''))))"
  by (simp add: make_mutation_list_def Let_def dvd_eq_mod_eq_0)

text \<open>Both sides of C7: 20 lines raise, 19 lines do not.\<close>

theorem make_mutation_list_raises_iff_witness:
  "fst (make_mutation_list [(''A'', ''214'', ''X'')] Map.empty)
      = Inl (ValueError ''Number of mutations (20) is not correct.'')
   \<and> length (mutations [(''A'', ''214'', ''X'')]) = 20
   \<and> fst (make_mutation_list [(''A'', ''214'', ''E'')] Map.empty) = Inr ()
   \<and> length (mutations [(''A'', ''214'', ''E'')]) = 19"
proof -
  have a: "length (mutations [(''A'', ''214'', ''X'')]) = 20"
    by (simp add: mutations_def amino_acids_def)
  have b: "length (mutations [(''A'', ''214'', ''E'')]) = 19"
    by (simp add: mutations_def amino_acids_def)
  have c: "str_nat 20 = ''20''" by code_simp
  have x: "fst (make_mutation_list [(''A'', ''214'', ''X'')] Map.empty)
      = Inl (ValueError ''Number of mutations (20) is not correct.'')"
    using make_mutation_list_raises_iff [of "[(''A'', ''214'', ''X'')]" Map.empty]
    by (auto simp: a c)
  have e: "fst (make_mutation_list [(''A'', ''214'', ''E'')] Map.empty) = Inr ()"
    using make_mutation_list_raises_iff [of "[(''A'', ''214'', ''E'')]" Map.empty]
    by (auto simp: b)
  show ?thesis
    using x e a b by simp
qed

text \<open>
  Claim C8: when \<open>make_mutation_list\<close> raises, the file \<open>individual_list.txt\<close> has
  already been written with all the generated lines (a number of lines not divisible by
  19); the file system differs from the one before the call unless the file held those
  very characters already.
\<close>

theorem make_mutation_list_writes_before_check:
  assumes "fst (make_mutation_list residues files) = Inl e"
  shows "snd (snd (make_mutation_list residues files))
           = files(''individual_list.txt'' \<mapsto> concat (mutations residues))
         \<and> \<not> 19 dvd length (mutations residues)
         \<and> (files ''individual_list.txt'' \<noteq> Some (concat (mutations residues))
              \<longrightarrow> snd (snd (make_mutation_list residues files)) \<noteq> files)"
proof -
  have w: "snd (snd (make_mutation_list residues files))
           = files(''individual_list.txt'' \<mapsto> concat (mutations residues))"
    by (simp add: make_mutation_list_def Let_def)
  have d: "\<not> 19 dvd length (mutations residues)"
    using assms by (auto simp: make_mutation_list_def Let_def dvd_eq_mod_eq_0 split: if_splits)
  have "files ''individual_list.txt'' \<noteq> Some (concat (mutations residues))
          \<Longrightarrow> files(''individual_list.txt'' \<mapsto> concat (mutations residues)) \<noteq> files"
    by (metis fun_upd_same)
  with w d show ?thesis by simp
qed

text \<open>One residue with wild type \<open>X\<close>, on an empty file system: the error, and the file with its 20 lines.\<close>

theorem make_mutation_list_writes_before_check_witness:
  "fst (make_mutation_list [(''A'', ''214'', ''X'')] Map.empty)
      = Inl (ValueError ''Number of mutations (20) is not correct.'')
   \<and> snd (snd (make_mutation_list [(''A'', ''214'', ''X'')] Map.empty)) ''individual_list.txt''
      = Some (concat (mutations [(''A'', ''214'', ''X'')]))
   \<and> length (mutations [(''A'', ''214'', ''X'')]) = 20
   \<and> snd (snd (make_mutation_list [(''A'', ''214'', ''X'')] Map.empty)) \<noteq> Map.empty"
proof -
  have a: "length (mutations [(''A'', ''214'', ''X'')]) = 20"
    by (simp add: mutations_def amino_acids_def)
  have c: "str_nat 20 = ''20''" by code_simp
  have h: "fst (make_mutation_list [(''A'', ''214'', ''X'')] Map.empty)
      = Inl (ValueError ''Number of mutations (20) is not correct.'')"
    by (simp add: make_mutation_list_def Let_def a c)
  show ?thesis
    using make_mutation_list_writes_before_check [OF h] h a by simp
qed

subsection \<open>The stability runner and the repair step\<close>

lemma run_foldx_command_returncode:
  "returncode (fst (run_foldx_command run cmd w)) = fst (run cmd w)
   \<and> snd (run_foldx_command run cmd w) = snd (run cmd w)"
  by (simp add: run_foldx_command_def subprocess_run_check_def split: prod.splits)

lemma stability_cmd_inject: "(stability_cmd f = stability_cmd g) = (f = g)"
  by (simp add: stability_cmd_def)

lemma invocations_of_append:
  "invocations_of g (xs @ ys) = invocations_of g xs @ invocations_of g ys"
  by (induction g xs rule: invocations_of.induct) auto

lemma all_invocations_append:
  "all_invocations (xs @ ys) = all_invocations xs @ all_invocations ys"
  by (induction xs rule: all_invocations.induct) auto

lemma stability_attempts_other:
  "stability_attempts run f N d a k w = (s, evs, w') \<Longrightarrow> g \<noteq> f \<Longrightarrow> invocations_of g evs = []"
proof (induction k arbitrary: a w s evs w')
  case 0
  then show ?case by simp
next
  case (Suc k)
  obtain result w1 where rf: "run_foldx_command run (stability_cmd f) w = (result, w1)"
    by (cases "run_foldx_command run (stability_cmd f) w")
  define rc where "rc = returncode result"
  then have rr: "returncode result = rc" by simp
  show ?case
  proof (cases "rc = 0")
    case True
    with Suc.prems rf rr show ?thesis by (auto simp: stability_cmd_inject)
  next
    case False
    obtain s2 evs2 w2 where rec: "stability_attempts run f N d (Suc a) k w1 = (s2, evs2, w2)"
      by (cases "stability_attempts run f N d (Suc a) k w1")
    from Suc.IH [OF rec Suc.prems(2)] have "invocations_of g evs2 = []" .
    with Suc.prems rf rr rec False show ?thesis
      by (auto simp: stability_cmd_inject invocations_of_append)
  qed
qed

lemma stability_attempts_own:
  "stability_attempts run f N d a k w = (s, evs, w') \<Longrightarrow>
     length (invocations_of f evs) \<le> k \<and> s = (0 \<in> set (invocations_of f evs))
     \<and> length (all_invocations evs) \<le> k"
proof (induction k arbitrary: a w s evs w')
  case 0
  then show ?case by auto
next
  case (Suc k)
  obtain result w1 where rf: "run_foldx_command run (stability_cmd f) w = (result, w1)"
    by (cases "run_foldx_command run (stability_cmd f) w")
  define rc where "rc = returncode result"
  then have rr: "returncode result = rc" by simp
  show ?case
  proof (cases "rc = 0")
    case True
    with Suc.prems rf rr show ?thesis by auto
  next
    case False
    obtain s2 evs2 w2 where rec: "stability_attempts run f N d (Suc a) k w1 = (s2, evs2, w2)"
      by (cases "stability_attempts run f N d (Suc a) k w1")
    from Suc.IH [OF rec] have ih: "length (invocations_of f evs2) \<le> k"
      "s2 = (0 \<in> set (invocations_of f evs2))" "length (all_invocations evs2) \<le> k" by auto
    from Suc.prems rf rr rec False have s: "s = s2" and
      e: "invocations_of f evs = rc # invocations_of f evs2"
         "all_invocations evs = (stability_cmd f, rc) # all_invocations evs2"
      by (auto simp: invocations_of_append all_invocations_append)
    from ih s e False show ?thesis by auto
  qed
qed

lemma stability_loop_props:
  "stability_loop run N d files w = (errs, evs, w') \<Longrightarrow>
     length (invocations_of g evs) \<le> nat N * count_list files g
     \<and> length (all_invocations evs) \<le> nat N * length files
     \<and> set errs \<subseteq> set files
     \<and> (distinct files \<longrightarrow> g \<in> set files \<longrightarrow> (g \<in> set errs) = (0 \<notin> set (invocations_of g evs)))"
proof (induction files arbitrary: w errs evs w')
  case Nil
  then show ?case by simp
next
  case (Cons f files)
  obtain s evs1 w1 where att: "stability_attempts run f N d 0 (nat N) w = (s, evs1, w1)"
    by (cases "stability_attempts run f N d 0 (nat N) w")
  obtain errs2 evs2 w2 where rec: "stability_loop run N d files w1 = (errs2, evs2, w2)"
    by (cases "stability_loop run N d files w1")
  from Cons.prems att rec have
    errs: "errs = (if \<not> s then [f] else []) @ errs2" and
    evs: "evs = ConsoleLog (''Running stability calculation for: '' @ f) # evs1 @ evs2"
    by auto
  note ih = Cons.IH [OF rec]
  note own = stability_attempts_own [OF att]
  have inv: "invocations_of g evs = invocations_of g evs1 @ invocations_of g evs2"
    by (simp add: evs invocations_of_append)
  have c1: "length (invocations_of g evs) \<le> nat N * count_list (f # files) g"
  proof (cases "g = f")
    case True
    with own ih inv show ?thesis by (simp add: algebra_simps)
  next
    case False
    with stability_attempts_other [OF att, of g] ih inv show ?thesis by simp
  qed
  have c2: "length (all_invocations evs) \<le> nat N * length (f # files)"
    using own ih by (simp add: evs all_invocations_append)
  have c3: "set errs \<subseteq> set (f # files)"
    using ih by (auto simp: errs)
  have c4: "(g \<in> set errs) = (0 \<notin> set (invocations_of g evs))"
    if d: "distinct (f # files)" and m: "g \<in> set (f # files)"
  proof (cases "g = f")
    case True
    with d have "f \<notin> set files" by simp
    with ih have "f \<notin> set errs2" by auto
    moreover from ih True \<open>f \<notin> set files\<close> have "invocations_of f evs2 = []"
      by (simp add: count_list_0_iff)
    ultimately show ?thesis using own True inv by (auto simp: errs)
  next
    case False
    with m have gm: "g \<in> set files" by simp
    from d have "distinct files" by simp
    with ih gm have "(g \<in> set errs2) = (0 \<notin> set (invocations_of g evs2))" by simp
    with False stability_attempts_other [OF att, of g] show ?thesis
      by (auto simp: errs inv)
  qed
  from c1 c2 c3 c4 show ?case by blast
qed


lemma count_list_distinct: "distinct xs \<Longrightarrow> count_list xs x \<le> 1"
  by (induction xs) (auto simp: count_list_0_iff)

lemma invocations_of_prints:
  "invocations_of g (map (\<lambda>f. ConsolePrint (h f)) fs) = []"
  by (induction fs) auto

lemma all_invocations_prints:
  "all_invocations (map (\<lambda>f. ConsolePrint (h f)) fs) = []"
  by (induction fs) auto

lemma run_foldx_stability_nonempty:
  assumes "glob (base @ ''_Repair*.pdb'') \<noteq> []"
    and "stability_loop run N d (glob (base @ ''_Repair*.pdb'')) w = (errs, evs1, w1)"
    and "run_foldx_stability glob run base N d w = (result, evs, w')"
  shows "result = Some (errs = [])" and "invocations_of g evs = invocations_of g evs1"
    and "all_invocations evs = all_invocations evs1"
proof -
  show "result = Some (errs = [])"
    using assms by (cases "errs = []") (simp_all add: run_foldx_stability_def)
  show "invocations_of g evs = invocations_of g evs1"
    using assms
    by (cases "errs = []")
       (auto simp: run_foldx_stability_def invocations_of_append invocations_of_prints)
  show "all_invocations evs = all_invocations evs1"
    using assms
    by (cases "errs = []")
       (auto simp: run_foldx_stability_def all_invocations_append all_invocations_prints)
qed

text \<open>
  Claim C3, as amended. The paths that \<open>glob\<close> returns are distinct. Then the stability
  command is called at most \<open>max_retries\<close> times on each file (and at most
  \<open>max_retries\<close> times the number of files in all); for a batch that is not empty the
  runner returns \<open>True\<close> exactly when every file of the batch had a call with exit status
  zero among its own calls, and \<open>False\<close> exactly when some file had none; for an empty
  batch it returns \<open>None\<close>.
\<close>

theorem run_foldx_stability_batch:
  assumes r: "run_foldx_stability glob run base_pdb_name max_retries retry_delay w = (result, evs, w')"
    and d: "distinct (glob (base_pdb_name @ ''_Repair*.pdb''))"
  shows "(\<forall>pdb_file. length (invocations_of pdb_file evs) \<le> nat max_retries)
    \<and> length (all_invocations evs) \<le> nat max_retries * length (glob (base_pdb_name @ ''_Repair*.pdb''))
    \<and> (glob (base_pdb_name @ ''_Repair*.pdb'') \<noteq> [] \<longrightarrow>
          (result = Some True)
            = (\<forall>pdb_file \<in> set (glob (base_pdb_name @ ''_Repair*.pdb'')). 0 \<in> set (invocations_of pdb_file evs))
          \<and> (result = Some False)
            = (\<exists>pdb_file \<in> set (glob (base_pdb_name @ ''_Repair*.pdb'')). 0 \<notin> set (invocations_of pdb_file evs)))
    \<and> (glob (base_pdb_name @ ''_Repair*.pdb'') = [] \<longrightarrow> result = None)"
proof (cases "glob (base_pdb_name @ ''_Repair*.pdb'') = []")
  case True
  with r have "result = None" and "evs = [ConsolePrint (''[red]No files found matching the pattern: '' @ (base_pdb_name @ ''_Repair*.pdb'') @ ''[/red]'')]"
    by (simp_all add: run_foldx_stability_def)
  with True show ?thesis by simp
next
  case False
  define files where "files = glob (base_pdb_name @ ''_Repair*.pdb'')"
  obtain errs evs1 w1 where loop: "stability_loop run max_retries retry_delay files w = (errs, evs1, w1)"
    by (cases "stability_loop run max_retries retry_delay files w")
  note ne = run_foldx_stability_nonempty [OF False loop [unfolded files_def] r]
  have res: "result = Some (errs = [])" by (rule ne(1))
  have inv: "invocations_of g evs = invocations_of g evs1" for g by (rule ne(2))
  have ainv: "all_invocations evs = all_invocations evs1" by (rule ne(3))
  have cnt: "count_list files g \<le> 1" for g
    using d unfolding files_def by (rule count_list_distinct)
  have p1: "length (invocations_of g evs) \<le> nat max_retries" for g
  proof -
    have "length (invocations_of g evs1) \<le> nat max_retries * count_list files g"
      using stability_loop_props [OF loop, of g] by simp
    also have "\<dots> \<le> nat max_retries * 1" using cnt [of g] by (intro mult_le_mono2)
    finally show ?thesis by (simp add: inv)
  qed
  have p2: "length (all_invocations evs) \<le> nat max_retries * length files"
    using stability_loop_props [OF loop, of undefined] by (simp add: ainv)
  have sub: "set errs \<subseteq> set files"
    using stability_loop_props [OF loop, of undefined] by simp
  have mem: "(g \<in> set errs) = (0 \<notin> set (invocations_of g evs))" if "g \<in> set files" for g
    using stability_loop_props [OF loop, of g] d that by (simp add: files_def inv)
  have p3: "(result = Some True) = (\<forall>g \<in> set files. 0 \<in> set (invocations_of g evs))"
  proof
    assume "result = Some True"
    with res have "errs = []" by simp
    with mem show "\<forall>g \<in> set files. 0 \<in> set (invocations_of g evs)" by auto
  next
    assume a: "\<forall>g \<in> set files. 0 \<in> set (invocations_of g evs)"
    have "errs = []"
    proof (rule ccontr)
      assume "errs \<noteq> []"
      then obtain g where "g \<in> set errs" by (cases errs) auto
      with sub mem a show False by auto
    qed
    with res show "result = Some True" by simp
  qed
  have p4: "(result = Some False) = (\<exists>g \<in> set files. 0 \<notin> set (invocations_of g evs))"
    using p3 res by auto
  from p1 p2 p3 p4 False show ?thesis unfolding files_def by blast
qed


text \<open>
  Two files, the tool failing on its first two calls: the first file succeeds at its third
  attempt, the second at its first, with the default three attempts and delay of five.
\<close>

lemma glob_foo_run:
  "run_foldx_stability glob_foo tool_fails_twice ''foo'' default_max_retries default_retry_delay 0
     = (Some True,
        [ConsoleLog ''Running stability calculation for: foo_Repair.pdb'',
         Invoke (stability_cmd ''foo_Repair.pdb'') 1,
         ConsolePrint ''[yellow]Error running stability calculation for foo_Repair.pdb (Attempt 1/3):[/yellow]'',
         ConsolePrint ''Retrying in 5 seconds...'', Sleep 5,
         Invoke (stability_cmd ''foo_Repair.pdb'') 1,
         ConsolePrint ''[yellow]Error running stability calculation for foo_Repair.pdb (Attempt 2/3):[/yellow]'',
         ConsolePrint ''Retrying in 5 seconds...'', Sleep 5,
         Invoke (stability_cmd ''foo_Repair.pdb'') 0,
         ConsoleLog ''[green]Stability calculation completed for foo_Repair.pdb[/green]'',
         ConsoleLog ''Running stability calculation for: foo_Repair_1.pdb'',
         Invoke (stability_cmd ''foo_Repair_1.pdb'') 0,
         ConsoleLog ''[green]Stability calculation completed for foo_Repair_1.pdb[/green]'',
         ConsoleLog ''[green]All stability calculations finished successfully[/green]''],
        4)"
  by code_simp

lemma glob_foo_run_failing:
  "fst (run_foldx_stability glob_foo tool_fails_four_times ''foo'' default_max_retries default_retry_delay 0)
     = Some False"
  by code_simp

text \<open>The batch property on that run: exit statuses 1, 1, 0 and 0, and the result \<open>True\<close>.\<close>

theorem run_foldx_stability_batch_witness:
  "distinct (glob_foo ''foo_Repair*.pdb'')
   \<and> glob_foo ''foo_Repair*.pdb'' = [''foo_Repair.pdb'', ''foo_Repair_1.pdb'']
   \<and> fst (run_foldx_stability glob_foo tool_fails_twice ''foo'' default_max_retries default_retry_delay 0)
        = Some True
   \<and> invocations_of ''foo_Repair.pdb''
        (fst (snd (run_foldx_stability glob_foo tool_fails_twice ''foo'' default_max_retries default_retry_delay 0)))
        = [1, 1, 0]
   \<and> invocations_of ''foo_Repair_1.pdb''
        (fst (snd (run_foldx_stability glob_foo tool_fails_twice ''foo'' default_max_retries default_retry_delay 0)))
        = [0]
   \<and> nat default_max_retries = 3"
proof -
  have g: "glob_foo ''foo_Repair*.pdb'' = [''foo_Repair.pdb'', ''foo_Repair_1.pdb'']"
    by (simp add: glob_foo_def)
  have d: "distinct (glob_foo ''foo_Repair*.pdb'')"
    by (simp add: g)
  have i1: "invocations_of ''foo_Repair.pdb''
        (fst (snd (run_foldx_stability glob_foo tool_fails_twice ''foo'' default_max_retries default_retry_delay 0)))
        = [1, 1, 0]"
    by (simp add: glob_foo_run stability_cmd_def)
  have i2: "invocations_of ''foo_Repair_1.pdb''
        (fst (snd (run_foldx_stability glob_foo tool_fails_twice ''foo'' default_max_retries default_retry_delay 0)))
        = [0]"
    by (simp add: glob_foo_run stability_cmd_def)
  have r: "run_foldx_stability glob_foo tool_fails_twice ''foo'' default_max_retries default_retry_delay 0
      = (fst (run_foldx_stability glob_foo tool_fails_twice ''foo'' default_max_retries default_retry_delay 0),
         fst (snd (run_foldx_stability glob_foo tool_fails_twice ''foo'' default_max_retries default_retry_delay 0)),
         snd (snd (run_foldx_stability glob_foo tool_fails_twice ''foo'' default_max_retries default_retry_delay 0)))"
    by simp
  have "fst (run_foldx_stability glob_foo tool_fails_twice ''foo'' default_max_retries default_retry_delay 0)
        = Some True"
    using run_foldx_stability_batch [where glob = glob_foo and run = tool_fails_twice
        and base_pdb_name = "''foo''" and max_retries = default_max_retries
        and retry_delay = default_retry_delay and w = 0, OF r] d
    by (simp add: g i1 i2)
  then show ?thesis
    using g d i1 i2 by (simp add: default_max_retries_def)
qed


text \<open>
  Claim C3 as stated fails on the empty batch: every file of the batch (there is none)
  succeeded, and the runner does not report success, it returns \<open>None\<close>.
\<close>

theorem run_foldx_stability_batch_counterexample:
  "glob_nothing ''foo_Repair*.pdb'' = []
   \<and> fst (run_foldx_stability glob_nothing tool_fails_twice ''foo'' default_max_retries default_retry_delay 0)
        = None
   \<and> fst (run_foldx_stability glob_nothing tool_fails_twice ''foo'' default_max_retries default_retry_delay 0)
        \<noteq> Some True"
  by (simp add: run_foldx_stability_def glob_nothing_def)

text \<open>
  Claim C10: when no file matches \<open>{base_pdb_name}_Repair*.pdb\<close>, the runner prints one
  message, returns \<open>None\<close> (neither \<open>True\<close> nor \<open>False\<close>), calls the external tool
  not at all and leaves the world as it was.
\<close>

theorem run_foldx_stability_no_files:
  assumes "glob (base_pdb_name @ ''_Repair*.pdb'') = []"
  shows "run_foldx_stability glob run base_pdb_name max_retries retry_delay w
           = (None,
              [ConsolePrint (''[red]No files found matching the pattern: '' @ base_pdb_name @ ''_Repair*.pdb[/red]'')],
              w)
         \<and> all_invocations (fst (snd (run_foldx_stability glob run base_pdb_name max_retries retry_delay w))) = []
         \<and> fst (run_foldx_stability glob run base_pdb_name max_retries retry_delay w) \<noteq> Some True
         \<and> fst (run_foldx_stability glob run base_pdb_name max_retries retry_delay w) \<noteq> Some False"
  using assms by (simp add: run_foldx_stability_def)

text \<open>An environment without matching files.\<close>

theorem run_foldx_stability_no_files_witness:
  "glob_nothing ''foo_Repair*.pdb'' = []
   \<and> run_foldx_stability glob_nothing tool_always_fails ''foo'' default_max_retries default_retry_delay 0
        = (None, [ConsolePrint ''[red]No files found matching the pattern: foo_Repair*.pdb[/red]''], 0)"
proof -
  have g: "glob_nothing (''foo'' @ ''_Repair*.pdb'') = []"
    by (simp add: glob_nothing_def)
  show ?thesis
    using run_foldx_stability_no_files [where glob = glob_nothing and base_pdb_name = "''foo''"
        and run = tool_always_fails and max_retries = default_max_retries
        and retry_delay = default_retry_delay and w = 0] g
    by simp
qed

text \<open>
  Claim C4, as amended. \<open>repair_pdb\<close> calls the external tool once. It raises
  (\<open>FileNotFoundError\<close>) exactly when the repaired file does not exist after the call,
  whatever the exit status, and then it logs nothing. When the file exists it returns its
  name and logs one line: the failure of RepairPDB for a non-zero exit status, the
  repaired file for the exit status zero.
\<close>

theorem repair_pdb_raises_iff:
  assumes "run [''foldx'', ''--command=RepairPDB'', ''--pdb='' @ base_pdb_name @ ''.pdb''] w = (rc, w')"
    and "repair_pdb run path_exists base_pdb_name w = (result, evs, w'')"
  shows "w'' = w'
    \<and> all_invocations evs = [([''foldx'', ''--command=RepairPDB'', ''--pdb='' @ base_pdb_name @ ''.pdb''], rc)]
    \<and> (result = Inl (FileNotFoundError ''Repaired PDB not generated''))
         = (\<not> path_exists w' (base_pdb_name @ ''_Repair.pdb''))
    \<and> (result = Inr (base_pdb_name @ ''_Repair.pdb''))
         = path_exists w' (base_pdb_name @ ''_Repair.pdb'')
    \<and> (rc \<noteq> 0 \<and> path_exists w' (base_pdb_name @ ''_Repair.pdb'') \<longrightarrow>
          evs = [Invoke [''foldx'', ''--command=RepairPDB'', ''--pdb='' @ base_pdb_name @ ''.pdb''] rc,
                 ConsoleLog (''[red]RepairPDB failed for '' @ base_pdb_name @ ''.pdb[/red]'')])
    \<and> (rc = 0 \<and> path_exists w' (base_pdb_name @ ''_Repair.pdb'') \<longrightarrow>
          evs = [Invoke [''foldx'', ''--command=RepairPDB'', ''--pdb='' @ base_pdb_name @ ''.pdb''] rc,
                 ConsoleLog (''[green]Repaired PDB: '' @ base_pdb_name @ ''_Repair.pdb[/green]'')])
    \<and> (\<not> path_exists w' (base_pdb_name @ ''_Repair.pdb'') \<longrightarrow>
          evs = [Invoke [''foldx'', ''--command=RepairPDB'', ''--pdb='' @ base_pdb_name @ ''.pdb''] rc])"
proof -
  let ?cmd = "[''foldx'', ''--command=RepairPDB'', ''--pdb='' @ base_pdb_name @ ''.pdb'']"
  obtain res w1 where rf: "run_foldx_command run ?cmd w = (res, w1)"
    by (cases "run_foldx_command run ?cmd w")
  from run_foldx_command_returncode [of run ?cmd w] rf assms(1)
  have rr: "returncode res = rc" and w1: "w1 = w'" by simp_all
  show ?thesis
    using assms(2) rf rr w1
    by (cases "path_exists w' (base_pdb_name @ ''_Repair.pdb'')")
       (auto simp: repair_pdb_def Let_def)
qed

text \<open>
  The tool exits with status 1. Where the repaired file exists the step logs the failure
  and returns; where it does not exist the step raises and logs nothing.
\<close>

theorem repair_pdb_raises_iff_witness:
  "tool_always_fails [''foldx'', ''--command=RepairPDB'', ''--pdb=x.pdb''] 0 = (1, 1)
   \<and> every_path_exists 1 ''x_Repair.pdb''
   \<and> repair_pdb tool_always_fails every_path_exists ''x'' 0
       = (Inr ''x_Repair.pdb'',
          [Invoke [''foldx'', ''--command=RepairPDB'', ''--pdb=x.pdb''] 1,
           ConsoleLog ''[red]RepairPDB failed for x.pdb[/red]''],
          1)
   \<and> \<not> no_path_exists 1 ''x_Repair.pdb''
   \<and> repair_pdb tool_always_fails no_path_exists ''x'' 0
       = (Inl (FileNotFoundError ''Repaired PDB not generated''),
          [Invoke [''foldx'', ''--command=RepairPDB'', ''--pdb=x.pdb''] 1],
          1)"
proof -
  have t: "tool_always_fails [''foldx'', ''--command=RepairPDB'', ''--pdb='' @ ''x'' @ ''.pdb''] 0 = (1, 1)"
    by (simp add: tool_always_fails_def)
  have e: "every_path_exists 1 ''x_Repair.pdb''" "\<not> no_path_exists 1 ''x_Repair.pdb''"
    by (simp_all add: every_path_exists_def no_path_exists_def)
  have r1: "repair_pdb tool_always_fails every_path_exists ''x'' 0
      = (fst (repair_pdb tool_always_fails every_path_exists ''x'' 0),
         fst (snd (repair_pdb tool_always_fails every_path_exists ''x'' 0)),
         snd (snd (repair_pdb tool_always_fails every_path_exists ''x'' 0)))"
    by simp
  have r2: "repair_pdb tool_always_fails no_path_exists ''x'' 0
      = (fst (repair_pdb tool_always_fails no_path_exists ''x'' 0),
         fst (snd (repair_pdb tool_always_fails no_path_exists ''x'' 0)),
         snd (snd (repair_pdb tool_always_fails no_path_exists ''x'' 0)))"
    by simp
  from repair_pdb_raises_iff [OF t r1] e
  have a: "repair_pdb tool_always_fails every_path_exists ''x'' 0
       = (Inr ''x_Repair.pdb'',
          [Invoke [''foldx'', ''--command=RepairPDB'', ''--pdb=x.pdb''] 1,
           ConsoleLog ''[red]RepairPDB failed for x.pdb[/red]''],
          1)"
    by (subst r1) simp
  from repair_pdb_raises_iff [OF t r2] e
  have b: "repair_pdb tool_always_fails no_path_exists ''x'' 0
       = (Inl (FileNotFoundError ''Repaired PDB not generated''),
          [Invoke [''foldx'', ''--command=RepairPDB'', ''--pdb=x.pdb''] 1],
          1)"
    by (subst r2) simp
  from a b t e show ?thesis by simp
qed

text \<open>
  Claim C4 as stated fails: the repair command exits with status 1, the repaired file
  exists (left by an earlier run, say), and \<open>repair_pdb\<close> returns normally.
\<close>

theorem repair_pdb_nonzero_exit_counterexample:
  "fst (tool_always_fails [''foldx'', ''--command=RepairPDB'', ''--pdb=x.pdb''] 0) = 1
   \<and> fst (repair_pdb tool_always_fails every_path_exists ''x'' 0) = Inr ''x_Repair.pdb''"
  by (simp add: repair_pdb_def run_foldx_command_def subprocess_run_check_def
        tool_always_fails_def every_path_exists_def)

subsection \<open>The file renamer\<close>

lemma renames_of_loop:
  "renames_of (concat (map (\<lambda>(pdb_file, mutation). [Print (p pdb_file mutation), Rename pdb_file (n mutation)]) ps))
     = map (\<lambda>(pdb_file, mutation). (pdb_file, n mutation)) ps"
  by (induction ps) auto

lemma rename_pdb_files_renames:
  "length (glob (fst (splitext repaired_pdb) @ ''_*.pdb'')) = length mutation_names \<Longrightarrow>
   renames_of (rename_pdb_files glob repaired_pdb mutation_names)
     = zip (sort_key file_key (glob (fst (splitext repaired_pdb) @ ''_*.pdb'')))
           (map (\<lambda>m. fst (splitext repaired_pdb) @ ''_'' @ m @ ''.pdb'') mutation_names)"
  by (simp add: rename_pdb_files_def Let_def renames_of_loop zip_map2)

lemma int_of_digits_nonneg: "0 \<le> int_of_digits ds"
  by (simp add: int_of_digits_def)

lemma file_key_lower: "- 1 \<le> file_key filename"
  using int_of_digits_nonneg [of "rev (takeWhile isdigit (rev (take (length (if filename \<noteq> [] \<and> last filename = LF then butlast filename else filename) - 4) (if filename \<noteq> [] \<and> last filename = LF then butlast filename else filename))))"]
  by (simp add: file_key_def Let_def)

lemma new_name_inject:
  "inj (\<lambda>m. base @ ''_'' @ m @ ''.pdb'')"
  by (rule injI) simp

text \<open>
  Claim C2. Let the base be \<open>splitext(repaired_pdb)[0]\<close> and the files those that
  \<open>glob\<close> gives for \<open>{base}_*.pdb\<close>. When there are as many files as mutation
  codes, \<open>os.rename\<close> is called once for each code: the sources are the files in the
  order of \<open>file_key\<close> (each file once; files with equal keys keep the order of
  \<open>glob\<close>), and the \<open>i\<close>-th target is \<open>{base}_{code}.pdb\<close> for the \<open>i\<close>-th code, so
  distinct codes give distinct targets. When the numbers differ, the only effect is the
  printed warning, and nothing is renamed. The key of every file is at least \<open>-1\<close>, the
  key of a file without numeric suffix.
\<close>

theorem rename_pdb_files_pairing:
  "(length (glob (fst (splitext repaired_pdb) @ ''_*.pdb'')) = length mutation_names \<longrightarrow>
      length (renames_of (rename_pdb_files glob repaired_pdb mutation_names)) = length mutation_names
      \<and> map fst (renames_of (rename_pdb_files glob repaired_pdb mutation_names))
          = sort_key file_key (glob (fst (splitext repaired_pdb) @ ''_*.pdb''))
      \<and> mset (map fst (renames_of (rename_pdb_files glob repaired_pdb mutation_names)))
          = mset (glob (fst (splitext repaired_pdb) @ ''_*.pdb''))
      \<and> sorted (map file_key (map fst (renames_of (rename_pdb_files glob repaired_pdb mutation_names))))
      \<and> (\<forall>k. filter (\<lambda>f. file_key f = k) (map fst (renames_of (rename_pdb_files glob repaired_pdb mutation_names)))
             = filter (\<lambda>f. file_key f = k) (glob (fst (splitext repaired_pdb) @ ''_*.pdb'')))
      \<and> map snd (renames_of (rename_pdb_files glob repaired_pdb mutation_names))
          = map (\<lambda>m. fst (splitext repaired_pdb) @ ''_'' @ m @ ''.pdb'') mutation_names
      \<and> (distinct mutation_names \<longrightarrow>
            distinct (map snd (renames_of (rename_pdb_files glob repaired_pdb mutation_names)))))
   \<and> (length (glob (fst (splitext repaired_pdb) @ ''_*.pdb'')) \<noteq> length mutation_names \<longrightarrow>
        rename_pdb_files glob repaired_pdb mutation_names
          = [Print ''Warning: PDB files and mutation names are not equal!'']
        \<and> renames_of (rename_pdb_files glob repaired_pdb mutation_names) = [])
   \<and> (\<forall>filename. - 1 \<le> file_key filename)"
proof -
  let ?base = "fst (splitext repaired_pdb)"
  let ?files = "glob (?base @ ''_*.pdb'')"
  let ?rs = "renames_of (rename_pdb_files glob repaired_pdb mutation_names)"
  let ?new = "\<lambda>m. ?base @ ''_'' @ m @ ''.pdb''"
  have eq: "?rs = zip (sort_key file_key ?files) (map ?new mutation_names)"
    if "length ?files = length mutation_names"
    using that by (rule rename_pdb_files_renames)
  have a: "length ?rs = length mutation_names" if "length ?files = length mutation_names"
    using that by (simp add: eq)
  have b: "map fst ?rs = sort_key file_key ?files" if "length ?files = length mutation_names"
    using that by (simp add: eq)
  have c: "map snd ?rs = map ?new mutation_names" if "length ?files = length mutation_names"
    using that by (simp add: eq)
  have d: "distinct (map snd ?rs)" if "length ?files = length mutation_names" "distinct mutation_names"
    using that new_name_inject [of ?base] by (simp add: c distinct_map inj_on_def inj_def)
  have e: "rename_pdb_files glob repaired_pdb mutation_names
          = [Print ''Warning: PDB files and mutation names are not equal!'']"
    if "length ?files \<noteq> length mutation_names"
    using that by (simp add: rename_pdb_files_def Let_def)
  have f: "?rs = []" if "length ?files \<noteq> length mutation_names"
    using that by (simp add: e)
  show ?thesis
    using a b c d e f file_key_lower by (simp add: sort_key_stable)
qed

text \<open>
  Four files given by \<open>glob\<close> in the order 10, 2, x, 1 and four codes: the file without a
  number comes first, then 1, 2 and 10 (the order of the numbers, not of the strings).
\<close>

lemma glob_base_run:
  "rename_pdb_files glob_base ''base_Repair.pdb'' [''EA1A'', ''EA1C'', ''EA1D'', ''EA1F'']
     = [Print ''Renaming base_Repair_x.pdb -> base_Repair_EA1A.pdb'',
        Rename ''base_Repair_x.pdb'' ''base_Repair_EA1A.pdb'',
        Print ''Renaming base_Repair_1.pdb -> base_Repair_EA1C.pdb'',
        Rename ''base_Repair_1.pdb'' ''base_Repair_EA1C.pdb'',
        Print ''Renaming base_Repair_2.pdb -> base_Repair_EA1D.pdb'',
        Rename ''base_Repair_2.pdb'' ''base_Repair_EA1D.pdb'',
        Print ''Renaming base_Repair_10.pdb -> base_Repair_EA1F.pdb'',
        Rename ''base_Repair_10.pdb'' ''base_Repair_EA1F.pdb'']"
  by code_simp

text \<open>The repository's tests of \<open>file_key\<close>, and the keys of the four files.\<close>

lemma file_key_examples:
  "file_key ''foo_123.pdb'' = 123" "file_key ''foo.pdb'' = - 1"
  "map file_key [''base_Repair_x.pdb'', ''base_Repair_1.pdb'', ''base_Repair_2.pdb'', ''base_Repair_10.pdb'']
     = [- 1, 1, 2, 10]"
  by code_simp+

lemma splitext_example: "splitext ''base_Repair.pdb'' = (''base_Repair'', ''.pdb'')"
  by code_simp

text \<open>
  The pairing on these four files; and the spec's scenario of four files and three codes:
  the warning and no rename.
\<close>

theorem rename_pdb_files_pairing_witness:
  "length (glob_base (fst (splitext ''base_Repair.pdb'') @ ''_*.pdb'')) = length [''EA1A'', ''EA1C'', ''EA1D'', ''EA1F'']
   \<and> distinct [''EA1A'', ''EA1C'', ''EA1D'', ''EA1F'']
   \<and> renames_of (rename_pdb_files glob_base ''base_Repair.pdb'' [''EA1A'', ''EA1C'', ''EA1D'', ''EA1F''])
       = [(''base_Repair_x.pdb'', ''base_Repair_EA1A.pdb''), (''base_Repair_1.pdb'', ''base_Repair_EA1C.pdb''),
          (''base_Repair_2.pdb'', ''base_Repair_EA1D.pdb''), (''base_Repair_10.pdb'', ''base_Repair_EA1F.pdb'')]
   \<and> distinct (map snd (renames_of (rename_pdb_files glob_base ''base_Repair.pdb'' [''EA1A'', ''EA1C'', ''EA1D'', ''EA1F''])))
   \<and> length (glob_base (fst (splitext ''base_Repair.pdb'') @ ''_*.pdb'')) \<noteq> length [''EA1A'', ''EA1C'', ''EA1D'']
   \<and> rename_pdb_files glob_base ''base_Repair.pdb'' [''EA1A'', ''EA1C'', ''EA1D'']
       = [Print ''Warning: PDB files and mutation names are not equal!'']"
proof -
  have g: "glob_base (fst (splitext ''base_Repair.pdb'') @ ''_*.pdb'')
      = [''base_Repair_10.pdb'', ''base_Repair_2.pdb'', ''base_Repair_x.pdb'', ''base_Repair_1.pdb'']"
    by (simp add: splitext_example glob_base_def)
  have l4: "length (glob_base (fst (splitext ''base_Repair.pdb'') @ ''_*.pdb'')) = length [''EA1A'', ''EA1C'', ''EA1D'', ''EA1F'']"
    and l3: "length (glob_base (fst (splitext ''base_Repair.pdb'') @ ''_*.pdb'')) \<noteq> length [''EA1A'', ''EA1C'', ''EA1D'']"
    by (simp_all add: g)
  have dn: "distinct [''EA1A'', ''EA1C'', ''EA1D'', ''EA1F'']" by simp
  have r: "renames_of (rename_pdb_files glob_base ''base_Repair.pdb'' [''EA1A'', ''EA1C'', ''EA1D'', ''EA1F''])
       = [(''base_Repair_x.pdb'', ''base_Repair_EA1A.pdb''), (''base_Repair_1.pdb'', ''base_Repair_EA1C.pdb''),
          (''base_Repair_2.pdb'', ''base_Repair_EA1D.pdb''), (''base_Repair_10.pdb'', ''base_Repair_EA1F.pdb'')]"
    by (simp add: glob_base_run)
  have d: "distinct (map snd (renames_of (rename_pdb_files glob_base ''base_Repair.pdb'' [''EA1A'', ''EA1C'', ''EA1D'', ''EA1F''])))"
    using rename_pdb_files_pairing [of glob_base "''base_Repair.pdb''" "[''EA1A'', ''EA1C'', ''EA1D'', ''EA1F'']"] l4 dn
    by blast
  have w: "rename_pdb_files glob_base ''base_Repair.pdb'' [''EA1A'', ''EA1C'', ''EA1D'']
       = [Print ''Warning: PDB files and mutation names are not equal!'']"
    using rename_pdb_files_pairing [of glob_base "''base_Repair.pdb''" "[''EA1A'', ''EA1C'', ''EA1D'']"] l3
    by blast
  from l4 dn r d l3 w show ?thesis by blast
qed

subsection \<open>The deltas\<close>

lemma round_double_neg: "round_double (- r) = fneg (round_double r)"
  by (cases "r = 0"; cases "0 < r") (auto simp: round_double_def Let_def)

lemma fsub_swap: "fsub a b = fneg (fsub b a)"
proof (cases a; cases b)
  fix x y assume "a = Finite x" "b = Finite y"
  then show ?thesis using round_double_neg [of "y - x"] by simp
qed simp_all

lemma round_double_not_nan: "round_double r \<noteq> NaN"
  by (simp add: round_double_def Let_def)

lemma fsub_nan:
  "(fsub value2 value1 = NaN)
     = (value1 = NaN \<or> value2 = NaN \<or> (value1 = PInf \<and> value2 = PInf) \<or> (value1 = NInf \<and> value2 = NInf))"
  by (cases value1; cases value2) (simp_all add: round_double_not_nan)

lemma float_eq_refl: "float_eq x x = (x \<noteq> NaN)"
  by (cases x) simp_all

lemma line_delta_swap:
  "line_delta pyfloat line2 line1 = map_option fneg (line_delta pyfloat line1 line2)"
proof (cases "pyfloat (split (strip line1) ! 1)"; cases "pyfloat (split (strip line2) ! 1)")
  fix value1 value2
  assume v: "pyfloat (split (strip line1) ! 1) = Some value1" "pyfloat (split (strip line2) ! 1) = Some value2"
  show ?thesis
    using v fsub_swap [of value1 value2] by (simp add: line_delta_def Let_def)
qed (simp_all add: line_delta_def Let_def)

lemma file_rows_deltas:
  "map delta (file_rows pyfloat individual_text file2 content1 content2)
     = List.map_filter (\<lambda>(line1, line2). line_delta pyfloat line1 line2)
         (zip (file_lines content1) (file_lines content2))"
proof -
  have "map delta (List.map_filter (\<lambda>(line1, line2).
          map_option (\<lambda>result. \<lparr>mutation = t, source_file = f, delta = result\<rparr>) (line_delta pyfloat line1 line2)) ps)
        = List.map_filter (\<lambda>(line1, line2). line_delta pyfloat line1 line2) ps" for ps t f
    by (induction ps) (auto simp: List.map_filter_simps split: option.splits)
  then show ?thesis by (simp add: file_rows_def)
qed

lemma map_filter_swap:
  "List.map_filter (\<lambda>(line2, line1). line_delta pyfloat line2 line1) (zip ys xs)
     = map fneg (List.map_filter (\<lambda>(line1, line2). line_delta pyfloat line1 line2) (zip xs ys))"
proof (induction xs arbitrary: ys)
  case Nil
  show ?case by (simp add: List.map_filter_simps)
next
  case (Cons x xs)
  show ?case
  proof (cases ys)
    case Nil
    then show ?thesis by (simp add: List.map_filter_simps)
  next
    case (Cons y ys')
    with Cons.IH [of ys'] show ?thesis
      by (cases "line_delta pyfloat x y") (simp_all add: List.map_filter_simps line_delta_swap [of pyfloat y x])
  qed
qed

text \<open>
  Claim C5, as amended. For a pair of lines that is not skipped, the delta is the float
  difference of the value of the mutant line and the value of the reference line.
  Swapping the two lines turns the delta into its negation (and a pair is skipped in one
  order exactly when it is skipped in the other); swapping the roles of the reference
  file and the mutant file does so for the delta of every row, in order. The swapped
  delta compares equal (\<open>==\<close>) to the negated delta exactly when the delta is not NaN, and
  the delta is NaN exactly when one of the two values is NaN or both are the same
  infinity.
\<close>

theorem delta_antisymmetric:
  "line_delta pyfloat mutant_line reference_line = map_option fneg (line_delta pyfloat reference_line mutant_line)
   \<and> map delta (file_rows pyfloat swapped_text swapped_file mutant reference)
       = map (\<lambda>r. fneg (delta r)) (file_rows pyfloat individual_text source reference mutant)
   \<and> line_delta pyfloat reference_line mutant_line
       = (if length (split (strip reference_line)) < 2 \<or> length (split (strip mutant_line)) < 2 then None
          else case (pyfloat (split (strip reference_line) ! 1), pyfloat (split (strip mutant_line) ! 1)) of
                 (Some reference_value, Some mutant_value) \<Rightarrow> Some (fsub mutant_value reference_value)
               | _ \<Rightarrow> None)
   \<and> fsub reference_value mutant_value = fneg (fsub mutant_value reference_value)
   \<and> float_eq (fsub reference_value mutant_value) (fneg (fsub mutant_value reference_value)) = (fsub mutant_value reference_value \<noteq> NaN)
   \<and> (fsub mutant_value reference_value = NaN)
       = (reference_value = NaN \<or> mutant_value = NaN \<or> (reference_value = PInf \<and> mutant_value = PInf) \<or> (reference_value = NInf \<and> mutant_value = NInf))"
proof -
  have a: "map delta (file_rows pyfloat swapped_text swapped_file mutant reference)
       = map fneg (map delta (file_rows pyfloat individual_text source reference mutant))"
    unfolding file_rows_deltas by (rule map_filter_swap)
  have b: "line_delta pyfloat reference_line mutant_line
       = (if length (split (strip reference_line)) < 2 \<or> length (split (strip mutant_line)) < 2 then None
          else case (pyfloat (split (strip reference_line) ! 1), pyfloat (split (strip mutant_line) ! 1)) of
                 (Some reference_value, Some mutant_value) \<Rightarrow> Some (fsub mutant_value reference_value)
               | _ \<Rightarrow> None)"
    by (cases "pyfloat (split (strip reference_line) ! 1)"; cases "pyfloat (split (strip mutant_line) ! 1)")
       (simp_all add: line_delta_def Let_def)
  have c: "fsub reference_value mutant_value = fneg (fsub mutant_value reference_value)" by (rule fsub_swap)
  have d: "float_eq (fsub reference_value mutant_value) (fneg (fsub mutant_value reference_value)) = (fsub mutant_value reference_value \<noteq> NaN)"
  proof -
    have "float_eq (fsub reference_value mutant_value) (fsub reference_value mutant_value) = (fsub reference_value mutant_value \<noteq> NaN)"
      by (rule float_eq_refl)
    moreover have "(fsub reference_value mutant_value = NaN) = (fsub mutant_value reference_value = NaN)"
      unfolding fsub_nan by blast
    ultimately show ?thesis using c by simp
  qed
  from a b c d fsub_nan [of mutant_value reference_value] line_delta_swap [of pyfloat mutant_line reference_line]
  show ?thesis by (simp add: o_def)
qed

text \<open>
  Claim C5 as stated fails where the delta is NaN: both lines hold \<open>inf\<close>, which
  \<open>float\<close> accepts; the delta is \<open>inf - inf\<close>, and it does not compare equal to its
  negation.
\<close>

theorem delta_antisymmetric_counterexample:
  "pyfloat_example ''inf'' = Some PInf
   \<and> line_delta pyfloat_example ''x inf'' ''x inf'' = Some NaN
   \<and> fsub PInf PInf = NaN
   \<and> \<not> float_eq (fsub PInf PInf) (fneg (fsub PInf PInf))"
proof -
  have "line_delta pyfloat_example ''x inf'' ''x inf'' = Some NaN" by code_simp
  then show ?thesis by (simp add: pyfloat_example_def)
qed

text \<open>The spec's scenario: the deltas are 1.5 and -3.0.\<close>

lemma fxout_rows:
  "file_rows pyfloat_example ''EA214A'' ''m.fxout'' reference_fxout mutant_fxout
     = [\<lparr>mutation = ''EA214A'', source_file = ''m.fxout'', delta = Finite (3 / 2)\<rparr>,
        \<lparr>mutation = ''EA214A'', source_file = ''m.fxout'', delta = Finite (- 3)\<rparr>]"
  by code_simp

text \<open>With the roles of the two files swapped the deltas are -1.5 and 3.0.\<close>

theorem delta_antisymmetric_witness:
  "map delta (file_rows pyfloat_example ''EA214A'' ''m.fxout'' reference_fxout mutant_fxout)
     = [Finite (3 / 2), Finite (- 3)]
   \<and> map delta (file_rows pyfloat_example ''EA214A'' ''r.fxout'' mutant_fxout reference_fxout)
     = [Finite (- (3 / 2)), Finite 3]"
  using delta_antisymmetric [where pyfloat = pyfloat_example and swapped_text = "''EA214A''"
      and swapped_file = "''r.fxout''" and mutant = mutant_fxout and reference = reference_fxout
      and individual_text = "''EA214A''" and source = "''m.fxout''"]
  by (simp add: fxout_rows)


subsection \<open>The ranking\<close>
























subsection \<open>Reading the mutation list back\<close>

lemma universal_newlines_id: "CR \<notin> set s \<Longrightarrow> universal_newlines s = s"
  by (induction s rule: universal_newlines.induct) auto


lemma lines_from_line:
  "LF \<notin> set c \<Longrightarrow> lines_from cur (c @ LF # rest) = (cur @ c @ [LF]) # lines_from [] rest"
  by (induction c arbitrary: cur) auto


lemma lines_from_written:
  "\<forall>c \<in> set cs. LF \<notin> set c \<Longrightarrow>
   lines_from [] (concat (map (\<lambda>c. c @ [CHR '';'', LF]) cs)) = map (\<lambda>c. c @ [CHR '';'', LF]) cs"
proof (induction cs)
  case Nil
  show ?case by simp
next
  case (Cons c cs)
  then have "LF \<notin> set (c @ [CHR '';''])"
    and ih: "lines_from [] (concat (map (\<lambda>c. c @ [CHR '';'', LF]) cs)) = map (\<lambda>c. c @ [CHR '';'', LF]) cs"
    by (auto simp: LF_def)
  from lines_from_line [OF \<open>LF \<notin> set (c @ [CHR '';''])\<close>, of "[]" "concat (map (\<lambda>c. c @ [CHR '';'', LF]) cs)"] ih
  show ?case by simp
qed

lemma isspace_LF: "isspace LF"
  by (simp add: isspace_def LF_def)


lemma not_isspace_semicolon: "\<not> isspace (CHR '';'')"
  by (simp add: isspace_def)


lemma strip_line:
  "c \<noteq> [] \<Longrightarrow> \<not> isspace (hd c) \<Longrightarrow> strip (c @ [CHR '';'', LF]) = c @ [CHR '';'']"
  by (cases c) (simp_all add: strip_def isspace_LF not_isspace_semicolon)


lemma rstrip_semicolon:
  "c \<noteq> [] \<Longrightarrow> last c \<noteq> CHR '';'' \<Longrightarrow> rstrip '';'' (c @ [CHR '';'']) = c"
  by (cases c rule: rev_cases) (simp_all add: rstrip_def)

lemma amino_acids_letters:
  "list_all (\<lambda>aa. length aa = 1 \<and> \<not> isspace (hd aa) \<and> hd aa \<noteq> CHR '';'' \<and> hd aa \<noteq> LF \<and> hd aa \<noteq> CR)
     amino_acids"
  by code_simp

lemma amino_acid_letter:
  assumes "aa \<in> set amino_acids"
  shows "\<exists>ch. aa = [ch] \<and> \<not> isspace ch \<and> ch \<noteq> CHR '';'' \<and> ch \<noteq> LF \<and> ch \<noteq> CR"
proof -
  from assms amino_acids_letters
  have l: "length aa = 1" and h: "\<not> isspace (hd aa)" "hd aa \<noteq> CHR '';''" "hd aa \<noteq> LF" "hd aa \<noteq> CR"
    by (auto simp: list_all_iff)
  from l obtain ch where "aa = [ch]" by (cases aa) auto
  with h show ?thesis by simp
qed

lemma LF_CR_facts: "LF \<noteq> CHR '';''" "CR \<noteq> CHR '';''" "CR \<noteq> LF"
  by (simp_all add: LF_def CR_def)

lemma read_back_line:
  assumes "c \<noteq> []" "\<not> isspace (hd c)" "last c \<noteq> CHR '';''"
  shows "rstrip '';'' (strip (c @ [CHR '';'', LF])) = c"
  using assms by (simp add: strip_line rstrip_semicolon)

lemma read_back:
  assumes good: "\<forall>c \<in> set cs. c \<noteq> [] \<and> \<not> isspace (hd c) \<and> last c \<noteq> CHR '';'' \<and> LF \<notin> set c \<and> CR \<notin> set c"
    and written: "files mutation_file = Some (concat (map (\<lambda>c. c @ [CHR '';'', LF]) cs))"
  shows "get_mutation_names files mutation_file = Inr cs"
proof -
  let ?content = "concat (map (\<lambda>c. c @ [CHR '';'', LF]) cs)"
  have "CR \<notin> set ?content"
    using good LF_CR_facts by auto
  then have u: "universal_newlines ?content = ?content"
    by (rule universal_newlines_id)
  have l: "lines_from [] ?content = map (\<lambda>c. c @ [CHR '';'', LF]) cs"
    using good by (intro lines_from_written) simp
  have fl: "file_lines ?content = map (\<lambda>c. c @ [CHR '';'', LF]) cs"
    by (simp add: file_lines_def u l)
  have m: "map ((\<lambda>line. rstrip '';'' (strip line)) \<circ> (\<lambda>c. c @ [CHR '';'', LF])) cs = cs"
    using good by (intro map_idI) (simp add: read_back_line)
  have f: "filter (\<lambda>line. line \<noteq> []) cs = cs"
    using good by (simp add: filter_id_conv)
  show ?thesis
    by (simp add: get_mutation_names_def written fl m f)
qed

lemma mutations_as_codes:
  "mutations residues
     = map (\<lambda>c. c @ [CHR '';'', LF])
         (concat (map (\<lambda>(chain, pos, wt). map (mutation_code wt chain pos) (filter (\<lambda>aa. aa \<noteq> wt) amino_acids))
            residues))"
  by (induction residues) (auto simp: mutations_def mutation_line_def o_def)

lemma codes_mem:
  assumes "c \<in> set (concat (map (\<lambda>(chain, pos, wt). map (mutation_code wt chain pos) (filter (\<lambda>aa. aa \<noteq> wt) amino_acids))
            residues))"
  shows "\<exists>chain pos wt aa. (chain, pos, wt) \<in> set residues \<and> aa \<in> set amino_acids
      \<and> c = mutation_code wt chain pos aa"
proof -
  from assms obtain r where r: "r \<in> set residues"
    and c: "c \<in> set ((\<lambda>(chain, pos, wt). map (mutation_code wt chain pos) (filter (\<lambda>aa. aa \<noteq> wt) amino_acids)) r)"
    by auto
  obtain chain pos wt where t: "r = (chain, pos, wt)" by (cases r)
  from c have "c \<in> mutation_code wt chain pos ` {aa \<in> set amino_acids. aa \<noteq> wt}"
    by (simp add: t)
  then obtain aa where "aa \<in> set amino_acids" "c = mutation_code wt chain pos aa" by blast
  with r t show ?thesis by blast
qed

lemma code_good:
  assumes aa: "aa \<in> set amino_acids"
    and p: "LF \<notin> set (wt @ chain @ pos)" "CR \<notin> set (wt @ chain @ pos)"
      "wt @ chain @ pos \<noteq> [] \<longrightarrow> \<not> isspace (hd (wt @ chain @ pos))"
  shows "mutation_code wt chain pos aa \<noteq> [] \<and> \<not> isspace (hd (mutation_code wt chain pos aa))
     \<and> last (mutation_code wt chain pos aa) \<noteq> CHR '';''
     \<and> LF \<notin> set (mutation_code wt chain pos aa) \<and> CR \<notin> set (mutation_code wt chain pos aa)"
proof -
  from amino_acid_letter [OF aa] obtain ch where
    ch: "aa = [ch]" "\<not> isspace ch" "ch \<noteq> CHR '';''" "ch \<noteq> LF" "ch \<noteq> CR" by blast
  have c: "mutation_code wt chain pos aa = (wt @ chain @ pos) @ [ch]"
    by (simp add: mutation_code_def ch)
  show ?thesis
    unfolding c using p ch by (cases "wt @ chain @ pos") auto
qed

text \<open>
  Claim C9, as amended. Let \<open>make_mutation_list\<close> complete without raising, on residues
  whose strings \<open>wt\<close>, \<open>chain\<close> and \<open>pos\<close> contain no line break (\<open>\n\<close> or \<open>\r\<close>)
  and whose concatenation \<open>{wt}{chain}{pos}\<close> does not begin with white space. Then
  \<open>get_mutation_names\<close> reads from the written file exactly the generated codes, in
  generation order: putting the semicolon and the newline back after each name gives the
  generated lines.
\<close>

theorem mutation_list_round_trip:
  assumes m: "make_mutation_list residues files = (Inr (), evs, files')"
    and p: "\<forall>(chain, pos, wt) \<in> set residues.
              LF \<notin> set (wt @ chain @ pos) \<and> CR \<notin> set (wt @ chain @ pos)
              \<and> (wt @ chain @ pos \<noteq> [] \<longrightarrow> \<not> isspace (hd (wt @ chain @ pos)))"
  shows "\<exists>names. get_mutation_names files' ''individual_list.txt'' = Inr names
           \<and> map (\<lambda>c. c @ [CHR '';'', LF]) names = mutations residues"
proof -
  let ?codes = "concat (map (\<lambda>(chain, pos, wt). map (mutation_code wt chain pos) (filter (\<lambda>aa. aa \<noteq> wt) amino_acids))
            residues)"
  have good: "\<forall>c \<in> set ?codes. c \<noteq> [] \<and> \<not> isspace (hd c) \<and> last c \<noteq> CHR '';'' \<and> LF \<notin> set c \<and> CR \<notin> set c"
  proof
    fix c assume "c \<in> set ?codes"
    from codes_mem [OF this] obtain chain pos wt aa where r: "(chain, pos, wt) \<in> set residues"
      and aa: "aa \<in> set amino_acids" and c: "c = mutation_code wt chain pos aa"
      by blast
    from bspec [OF p r] have "LF \<notin> set (wt @ chain @ pos)" "CR \<notin> set (wt @ chain @ pos)"
      "wt @ chain @ pos \<noteq> [] \<longrightarrow> \<not> isspace (hd (wt @ chain @ pos))"
      by simp_all
    from code_good [OF aa this] show "c \<noteq> [] \<and> \<not> isspace (hd c) \<and> last c \<noteq> CHR '';'' \<and> LF \<notin> set c \<and> CR \<notin> set c"
      by (simp add: c)
  qed
  have "snd (snd (make_mutation_list residues files))
      = files(''individual_list.txt'' \<mapsto> concat (mutations residues))"
    by (simp add: make_mutation_list_def Let_def)
  with m have "files' = files(''individual_list.txt'' \<mapsto> concat (mutations residues))"
    by simp
  then have "files' ''individual_list.txt'' = Some (concat (map (\<lambda>c. c @ [CHR '';'', LF]) ?codes))"
    by (simp add: mutations_as_codes)
  with good have "get_mutation_names files' ''individual_list.txt'' = Inr ?codes"
    by (rule read_back [where files = files' and mutation_file = "''individual_list.txt''"])
  moreover have "map (\<lambda>c. c @ [CHR '';'', LF]) ?codes = mutations residues"
    by (rule mutations_as_codes [symmetric])
  ultimately show ?thesis by blast
qed

text \<open>The residue \<open>("A", "214", "E")\<close>: the 19 names read back.\<close>

lemma round_trip_example:
  "get_mutation_names (snd (snd (make_mutation_list [(''A'', ''214'', ''E'')] Map.empty))) ''individual_list.txt''
     = Inr [''EA214A'', ''EA214C'', ''EA214D'', ''EA214F'', ''EA214G'', ''EA214H'', ''EA214I'',
            ''EA214K'', ''EA214L'', ''EA214M'', ''EA214N'', ''EA214P'', ''EA214Q'', ''EA214R'',
            ''EA214S'', ''EA214T'', ''EA214V'', ''EA214W'', ''EA214Y'']"
  by code_simp

text \<open>The round trip on that residue.\<close>

theorem mutation_list_round_trip_witness:
  "fst (make_mutation_list [(''A'', ''214'', ''E'')] Map.empty) = Inr ()
   \<and> LF \<notin> set (''E'' @ ''A'' @ ''214'') \<and> CR \<notin> set (''E'' @ ''A'' @ ''214'')
   \<and> \<not> isspace (hd (''E'' @ ''A'' @ ''214''))
   \<and> (\<exists>names.
         get_mutation_names (snd (snd (make_mutation_list [(''A'', ''214'', ''E'')] Map.empty))) ''individual_list.txt''
           = Inr names
         \<and> map (\<lambda>c. c @ [CHR '';'', LF]) names = mutations [(''A'', ''214'', ''E'')])
   \<and> get_mutation_names (snd (snd (make_mutation_list [(''A'', ''214'', ''E'')] Map.empty))) ''individual_list.txt''
     = Inr [''EA214A'', ''EA214C'', ''EA214D'', ''EA214F'', ''EA214G'', ''EA214H'', ''EA214I'',
            ''EA214K'', ''EA214L'', ''EA214M'', ''EA214N'', ''EA214P'', ''EA214Q'', ''EA214R'',
            ''EA214S'', ''EA214T'', ''EA214V'', ''EA214W'', ''EA214Y'']"
proof -
  have c: "fst (make_mutation_list [(''A'', ''214'', ''E'')] Map.empty) = Inr ()"
    by (simp add: make_mutation_list_def Let_def mutations_def amino_acids_def)
  then have m: "make_mutation_list [(''A'', ''214'', ''E'')] Map.empty
      = (Inr (), fst (snd (make_mutation_list [(''A'', ''214'', ''E'')] Map.empty)),
         snd (snd (make_mutation_list [(''A'', ''214'', ''E'')] Map.empty)))"
    by (metis prod.collapse)
  have p: "LF \<notin> set (''E'' @ ''A'' @ ''214'')" "CR \<notin> set (''E'' @ ''A'' @ ''214'')"
    "\<not> isspace (hd (''E'' @ ''A'' @ ''214''))"
    by (simp_all add: LF_def CR_def isspace_def)
  then have "\<forall>(chain, pos, wt) \<in> set [(''A'', ''214'', ''E'')].
              LF \<notin> set (wt @ chain @ pos) \<and> CR \<notin> set (wt @ chain @ pos)
              \<and> (wt @ chain @ pos \<noteq> [] \<longrightarrow> \<not> isspace (hd (wt @ chain @ pos)))"
    by simp
  from mutation_list_round_trip [OF m this] c p round_trip_example show ?thesis by blast
qed

text \<open>
  A position that contains a newline (the command line can pass one, and \<open>main\<close> checks
  only the wild type): each code is written on two lines.
\<close>

lemma round_trip_broken_example:
  "get_mutation_names (snd (snd (make_mutation_list [(''A'', ''2'' @ [LF] @ ''14'', ''E'')] Map.empty)))
       ''individual_list.txt''
     = Inr [''EA2'', ''14A'', ''EA2'', ''14C'', ''EA2'', ''14D'', ''EA2'', ''14F'', ''EA2'', ''14G'',
            ''EA2'', ''14H'', ''EA2'', ''14I'', ''EA2'', ''14K'', ''EA2'', ''14L'', ''EA2'', ''14M'',
            ''EA2'', ''14N'', ''EA2'', ''14P'', ''EA2'', ''14Q'', ''EA2'', ''14R'', ''EA2'', ''14S'',
            ''EA2'', ''14T'', ''EA2'', ''14V'', ''EA2'', ''14W'', ''EA2'', ''14Y'']"
  by code_simp

text \<open>
  Claim C9 as stated fails: the generator completes with 19 codes, the first of them
  \<open>EA2\n14A\<close>, and the reader yields 38 names, the first two \<open>EA2\<close> and \<open>14A\<close>.
\<close>

theorem mutation_list_round_trip_counterexample:
  "fst (make_mutation_list [(''A'', ''2'' @ [LF] @ ''14'', ''E'')] Map.empty) = Inr ()
   \<and> length (mutations [(''A'', ''2'' @ [LF] @ ''14'', ''E'')]) = 19
   \<and> hd (mutations [(''A'', ''2'' @ [LF] @ ''14'', ''E'')]) = ''EA2'' @ [LF] @ ''14A;'' @ [LF]
   \<and> get_mutation_names (snd (snd (make_mutation_list [(''A'', ''2'' @ [LF] @ ''14'', ''E'')] Map.empty)))
       ''individual_list.txt''
     = Inr [''EA2'', ''14A'', ''EA2'', ''14C'', ''EA2'', ''14D'', ''EA2'', ''14F'', ''EA2'', ''14G'',
            ''EA2'', ''14H'', ''EA2'', ''14I'', ''EA2'', ''14K'', ''EA2'', ''14L'', ''EA2'', ''14M'',
            ''EA2'', ''14N'', ''EA2'', ''14P'', ''EA2'', ''14Q'', ''EA2'', ''14R'', ''EA2'', ''14S'',
            ''EA2'', ''14T'', ''EA2'', ''14V'', ''EA2'', ''14W'', ''EA2'', ''14Y'']"
proof -
  have a: "length (mutations [(''A'', ''2'' @ [LF] @ ''14'', ''E'')]) = 19"
    by (simp add: mutations_def amino_acids_def)
  have b: "fst (make_mutation_list [(''A'', ''2'' @ [LF] @ ''14'', ''E'')] Map.empty) = Inr ()"
    using a by (simp add: make_mutation_list_def Let_def)
  have c: "hd (mutations [(''A'', ''2'' @ [LF] @ ''14'', ''E'')]) = ''EA2'' @ [LF] @ ''14A;'' @ [LF]"
    by (simp add: mutations_def amino_acids_def mutation_line_def mutation_code_def)
  from a b c round_trip_broken_example show ?thesis by simp
qed

end
